theory Spec2Isabelle
  imports Main "HOL-Library.Word" "HOL-Library.Signed_Division"
begin

section \<open>Machine integers and their decimal text\<close>

text \<open>
  Go's \<open>int64\<close> is a 64-bit word read in two's complement (\<open>sint\<close>); the conversions
  \<open>int64(v)\<close> and \<open>uint64(v)\<close> between the signed and the unsigned type of the same width
  keep the bits, and a conversion from a narrower unsigned type zero-extends (\<open>ucast\<close>).
\<close>

type_synonym int64 = "64 word"

definition digit_char :: "nat \<Rightarrow> char" where
  "digit_char d = ''0123456789'' ! d"

function decimal :: "nat \<Rightarrow> string" where
  "decimal n = (if n < 10 then [digit_char n] else decimal (n div 10) @ [digit_char (n mod 10)])"
  by pat_completeness auto
termination
  by (relation "measure id") auto

declare decimal.simps [simp del]

text \<open>\<open>strconv.FormatInt(i, 10)\<close>: the decimal text of a signed 64-bit integer.\<close>

definition FormatInt :: "int64 \<Rightarrow> string" where
  "FormatInt i = (if sint i < 0 then CHR ''-'' # decimal (nat (- sint i)) else decimal (nat (sint i)))"

text \<open>
  Go's \<open>/\<close> on \<open>int64\<close> truncates towards zero. The only divisor in \<open>core.go\<close> is the
  constant 1000000, so the division never traps.
\<close>

definition int64_div :: "int64 \<Rightarrow> int64 \<Rightarrow> int64" where
  "int64_div a b = word_of_int (sint a sdiv sint b)"

section \<open>Fields, payloads and contexts\<close>

text \<open>The field kinds of \<open>zapcore.FieldType\<close>, in the order zapcore declares them.\<close>

datatype FieldType =
    UnknownType | ArrayMarshalerType | ObjectMarshalerType | BinaryType | BoolType
  | ByteStringType | Complex128Type | Complex64Type | DurationType | Float64Type
  | Float32Type | Int64Type | Int32Type | Int16Type | Int8Type | StringType | TimeType
  | TimeFullType | Uint64Type | Uint32Type | Uint16Type | Uint8Type | UintptrType
  | ReflectType | NamespaceType | StringerType | ErrorType | SkipType | InlineMarshalerType

record ReportLocation =
  FilePath :: string
  LineNumber :: int
  FunctionName :: string

text \<open>
  A method of a dynamic value, as far as a caller can see it: the type has no such method,
  or calling it panics, or it returns a text.
\<close>

datatype dyn_method = NoMethod | MethodPanics | MethodReturns string

text \<open>
  The dynamic value behind \<open>Field.Interface\<close>. \<open>core.go\<close> never writes through a pointer to
  a report location, so a \<open>*ReportLocation\<close> is represented by the record it points to
  (\<open>None\<close> is the nil pointer). \<open>HTTPRequest\<close> and \<open>ServiceContext\<close> are declared outside
  \<open>core.go\<close> and never inspected by it: a pointer to one is an opaque address. A
  \<open>*Context\<close> is an address into the store of contexts below. A \<open>time.Time\<close> is represented
  by the text its \<open>String\<close> method returns. \<open>OtherValue s e\<close> is a value of any other type,
  with its \<open>String()\<close> method \<open>s\<close> and its \<open>Error()\<close> method \<open>e\<close>.
\<close>

datatype Interface =
    NilInterface
  | HTTPRequestPtr "nat option"
  | ReportLocationPtr "ReportLocation option"
  | ServiceContextPtr "nat option"
  | ContextPtr nat
  | TimeValue string
  | OtherValue dyn_method dyn_method

record Field =
  Key :: string
  Type :: FieldType
  Integer :: int64
  String :: string
  Interface :: Interface

record Context =
  User :: string
  HTTPRequest :: "nat option"
  ReportLocation :: "ReportLocation option"

datatype panic = TypeAssertionFailed | MethodPanicked

text \<open>
  What \<open>core.go\<close> takes from the Go runtime and standard library without this development
  looking inside: the two float formatters (on the bit pattern they are given), the local-zone
  text of an instant given in nanoseconds, and \<open>runtime.FuncForPC(pc)\<close> followed by \<open>Name()\<close>
  (\<open>None\<close> when the runtime cannot resolve the address).
\<close>

record extern =
  FormatFloat64 :: "64 word \<Rightarrow> string"
  FormatFloat32 :: "32 word \<Rightarrow> string"
  UnixNanoString :: "int64 \<Rightarrow> string"
  FuncForPC :: "64 word \<Rightarrow> string option"

subsection \<open>The zap field constructors used below\<close>

definition zap_Object :: "string \<Rightarrow> Interface \<Rightarrow> Field" where
  "zap_Object key val =
     \<lparr>Key = key, Type = ObjectMarshalerType, Integer = 0, String = [], Interface = val\<rparr>"

definition zap_String :: "string \<Rightarrow> string \<Rightarrow> Field" where
  "zap_String key val =
     \<lparr>Key = key, Type = StringType, Integer = 0, String = val, Interface = NilInterface\<rparr>"

definition zap_Bool :: "string \<Rightarrow> bool \<Rightarrow> Field" where
  "zap_Bool key val =
     \<lparr>Key = key, Type = BoolType, Integer = (if val then 1 else 0), String = [],
      Interface = NilInterface\<rparr>"

definition zap_Duration :: "string \<Rightarrow> int64 \<Rightarrow> Field" where
  "zap_Duration key val =
     \<lparr>Key = key, Type = DurationType, Integer = val, String = [], Interface = NilInterface\<rparr>"

definition zap_Int32 :: "string \<Rightarrow> 32 word \<Rightarrow> Field" where
  "zap_Int32 key val =
     \<lparr>Key = key, Type = Int32Type, Integer = scast val, String = [], Interface = NilInterface\<rparr>"

definition zap_Uint64 :: "string \<Rightarrow> 64 word \<Rightarrow> Field" where
  "zap_Uint64 key val =
     \<lparr>Key = key, Type = Uint64Type, Integer = val, String = [], Interface = NilInterface\<rparr>"

definition zap_Uint32 :: "string \<Rightarrow> 32 word \<Rightarrow> Field" where
  "zap_Uint32 key val =
     \<lparr>Key = key, Type = Uint32Type, Integer = ucast val, String = [], Interface = NilInterface\<rparr>"

definition zap_Uint16 :: "string \<Rightarrow> 16 word \<Rightarrow> Field" where
  "zap_Uint16 key val =
     \<lparr>Key = key, Type = Uint16Type, Integer = ucast val, String = [], Interface = NilInterface\<rparr>"

definition zap_Uint8 :: "string \<Rightarrow> 8 word \<Rightarrow> Field" where
  "zap_Uint8 key val =
     \<lparr>Key = key, Type = Uint8Type, Integer = ucast val, String = [], Interface = NilInterface\<rparr>"

definition zap_Uintptr :: "string \<Rightarrow> 64 word \<Rightarrow> Field" where
  "zap_Uintptr key val =
     \<lparr>Key = key, Type = UintptrType, Integer = val, String = [], Interface = NilInterface\<rparr>"

definition zap_Stringer :: "string \<Rightarrow> Interface \<Rightarrow> Field" where
  "zap_Stringer key val =
     \<lparr>Key = key, Type = StringerType, Integer = 0, String = [], Interface = val\<rparr>"

section \<open>The field serializer\<close>

text \<open>
  The type assertions \<open>x.(time.Time)\<close>, \<open>x.(fmt.Stringer)\<close> and \<open>x.(error)\<close> followed by the
  method call. An assertion on a value of another dynamic type (or on the nil interface)
  panics. \<open>time.Time\<close> has a \<open>String\<close> method and no \<open>Error\<close> method; the pointer types of
  this package are taken to have neither.
\<close>

fun assert_Time_String :: "Interface \<Rightarrow> panic + string" where
  "assert_Time_String (TimeValue s) = Inr s"
| "assert_Time_String _ = Inl TypeAssertionFailed"

fun assert_Stringer_String :: "Interface \<Rightarrow> panic + string" where
  "assert_Stringer_String (TimeValue s) = Inr s"
| "assert_Stringer_String (OtherValue (MethodReturns s) e) = Inr s"
| "assert_Stringer_String (OtherValue MethodPanics e) = Inl MethodPanicked"
| "assert_Stringer_String _ = Inl TypeAssertionFailed"

fun assert_error_Error :: "Interface \<Rightarrow> panic + string" where
  "assert_error_Error (OtherValue s (MethodReturns e)) = Inr e"
| "assert_error_Error (OtherValue s MethodPanics) = Inl MethodPanicked"
| "assert_error_Error _ = Inl TypeAssertionFailed"

text \<open>The \<open>switch\<close> of \<open>fieldValueToString\<close>, arm by arm, with the final \<open>return ""\<close>.\<close>

definition fieldValueToString_switch :: "extern \<Rightarrow> Field \<Rightarrow> panic + string" where
  "fieldValueToString_switch ext field =
     (case Type field of
        ArrayMarshalerType \<Rightarrow> Inr []
      | ObjectMarshalerType \<Rightarrow> Inr []
      | BinaryType \<Rightarrow> Inr []
      | BoolType \<Rightarrow> Inr (FormatInt (Integer field))
      | ByteStringType \<Rightarrow> Inr []
      | Complex128Type \<Rightarrow> Inr []
      | Complex64Type \<Rightarrow> Inr []
      | DurationType \<Rightarrow> Inr (FormatInt (int64_div (Integer field) 1000000))
      | Float64Type \<Rightarrow> Inr (FormatFloat64 ext (Integer field))
      | Float32Type \<Rightarrow> Inr (FormatFloat32 ext (ucast (Integer field)))
      | Int64Type \<Rightarrow> Inr (FormatInt (Integer field))
      | Int32Type \<Rightarrow> Inr (FormatInt (Integer field))
      | Int16Type \<Rightarrow> Inr (FormatInt (Integer field))
      | Int8Type \<Rightarrow> Inr (FormatInt (Integer field))
      | StringType \<Rightarrow> Inr (String field)
      | TimeType \<Rightarrow> Inr (UnixNanoString ext (Integer field))
      | TimeFullType \<Rightarrow> assert_Time_String (Interface field)
      | Uint64Type \<Rightarrow> Inr (FormatInt (Integer field))
      | Uint32Type \<Rightarrow> Inr (FormatInt (Integer field))
      | Uint16Type \<Rightarrow> Inr (FormatInt (Integer field))
      | Uint8Type \<Rightarrow> Inr (FormatInt (Integer field))
      | UintptrType \<Rightarrow> Inr (FormatInt (Integer field))
      | ReflectType \<Rightarrow> Inr []
      | NamespaceType \<Rightarrow> Inr []
      | StringerType \<Rightarrow> assert_Stringer_String (Interface field)
      | ErrorType \<Rightarrow> assert_error_Error (Interface field)
      | SkipType \<Rightarrow> Inr []
      | _ \<Rightarrow> Inr [])"

text \<open>
  The deferred function calls \<open>recover()\<close>: a panic of the body stops there, and the function
  returns the zero value of its unnamed result, the empty string. (The deferred function also
  prints a line to standard output, which is not modelled.) The result type keeps the panic
  branch, so that callers are written as they would have to be if a panic could reach them.
\<close>

definition fieldValueToString :: "extern \<Rightarrow> Field \<Rightarrow> panic + string" where
  "fieldValueToString ext field =
     (case fieldValueToString_switch ext field of
        Inl r \<Rightarrow> Inr []
      | Inr s \<Rightarrow> Inr s)"

section \<open>Keys, severities and the field builders of the package\<close>

definition logKeyServiceContext :: string where
  "logKeyServiceContext = ''serviceContext''"

definition logKeyContextHTTPRequest :: string where
  "logKeyContextHTTPRequest = ''context.httpRequest''"

definition logKeyContextUser :: string where
  "logKeyContextUser = ''context.user''"

definition logKeyContextReportLocation :: string where
  "logKeyContextReportLocation = ''context.reportLocation''"

text \<open>\<open>zapcore.Level\<close> is an \<open>int8\<close>; the named levels are consecutive from \<open>DebugLevel = -1\<close>.\<close>

type_synonym Level = "8 word"

definition DebugLevel :: Level where "DebugLevel = - 1"
definition InfoLevel :: Level where "InfoLevel = 0"
definition WarnLevel :: Level where "WarnLevel = 1"
definition ErrorLevel :: Level where "ErrorLevel = 2"
definition DPanicLevel :: Level where "DPanicLevel = 3"
definition PanicLevel :: Level where "PanicLevel = 4"
definition FatalLevel :: Level where "FatalLevel = 5"

definition logLevelSeverity :: "(Level \<times> string) list" where
  "logLevelSeverity =
     [(DebugLevel, ''DEBUG''),
      (InfoLevel, ''INFO''),
      (WarnLevel, ''WARNING''),
      (ErrorLevel, ''ERROR''),
      (DPanicLevel, ''CRITICAL''),
      (PanicLevel, ''ALERT''),
      (FatalLevel, ''EMERGENCY'')]"

text \<open>
  Indexing a Go map with a key it does not hold gives the zero value, here the empty string.
  The array encoder is the list of strings appended to it so far.
\<close>

definition EncodeLevel :: "Level \<Rightarrow> string list \<Rightarrow> string list" where
  "EncodeLevel lv enc =
     enc @ [case map_of logLevelSeverity lv of None \<Rightarrow> [] | Some s \<Rightarrow> s]"

definition LogServiceContext :: "nat option \<Rightarrow> Field" where
  "LogServiceContext ctx = zap_Object logKeyServiceContext (ServiceContextPtr ctx)"

definition LogHTTPRequest :: "nat option \<Rightarrow> Field" where
  "LogHTTPRequest req = zap_Object logKeyContextHTTPRequest (HTTPRequestPtr req)"

definition LogUser :: "string \<Rightarrow> Field" where
  "LogUser user = zap_String logKeyContextUser user"

definition LogReportLocation :: "ReportLocation option \<Rightarrow> Field" where
  "LogReportLocation loc = zap_Object logKeyContextReportLocation (ReportLocationPtr loc)"

section \<open>Logger nodes and the store of contexts\<close>

text \<open>
  A node holds a pointer to its context, and \<open>extractCtx\<close> assigns to the slots of a context
  through such a pointer. The contexts therefore live in a store: the address of a context is
  its index, and allocating appends. \<open>ctx = None\<close> is the nil pointer of the root node.
  The wrapped downstream core is a value of any type \<open>'d\<close>; its \<open>With\<close> and \<open>Write\<close>
  are parameters of the operations that call them.
\<close>

type_synonym heap = "Context list"

definition alloc :: "heap \<Rightarrow> Context \<Rightarrow> nat \<times> heap" where
  "alloc h v = (length h, h @ [v])"

record 'd Core =
  Core :: 'd
  SetReportLocation :: bool
  ctx :: "nat option"

text \<open>
  Modelled from the spec: \<open>Context.Clone\<close>, which \<open>cloneCtx\<close> calls and which is declared with
  the \<open>Context\<close> type outside \<open>core.go\<close>. The spec has the partition "start from a clone of
  baseContext" and requires every context to be "a deep-enough copy that mutating a child's
  context never observably mutates the parent's": the clone is a newly allocated context with
  the three slots of the original.
\<close>

definition Context_Clone :: "nat \<Rightarrow> heap \<Rightarrow> nat \<times> heap" where
  "Context_Clone a h = alloc h (h ! a)"

definition cloneCtx :: "'d Core \<Rightarrow> heap \<Rightarrow> nat \<times> heap" where
  "cloneCtx c h =
     (case ctx c of
        None \<Rightarrow> alloc h \<lparr>User = [], HTTPRequest = None, ReportLocation = None\<rparr>
      | Some a \<Rightarrow> Context_Clone a h)"

text \<open>
  The loop of \<open>extractCtx\<close> over the field list, with the output slice and the address of the
  cloned context. The type assertions \<open>f.Interface.(*HTTPRequest)\<close> and
  \<open>f.Interface.(*ReportLocation)\<close> are of the one-result form: they panic on a payload of
  another dynamic type, and nothing in \<open>extractCtx\<close>, \<open>With\<close> or \<open>Write\<close> recovers.
\<close>

fun extractCtx_loop ::
  "Field list \<Rightarrow> Field list \<Rightarrow> nat \<Rightarrow> heap \<Rightarrow> (panic + Field list \<times> nat) \<times> heap" where
  "extractCtx_loop [] output a h = (Inr (output, a), h)"
| "extractCtx_loop (f # fs) output a h =
     (if Key f = logKeyContextHTTPRequest then
        (case Interface f of
           HTTPRequestPtr p \<Rightarrow> extractCtx_loop fs output a (h[a := (h ! a)\<lparr>HTTPRequest := p\<rparr>])
         | _ \<Rightarrow> (Inl TypeAssertionFailed, h))
      else if Key f = logKeyContextReportLocation then
        (case Interface f of
           ReportLocationPtr p \<Rightarrow>
             extractCtx_loop fs output a (h[a := (h ! a)\<lparr>ReportLocation := p\<rparr>])
         | _ \<Rightarrow> (Inl TypeAssertionFailed, h))
      else if Key f = logKeyContextUser then
        extractCtx_loop fs output a (h[a := (h ! a)\<lparr>User := String f\<rparr>])
      else extractCtx_loop fs (output @ [f]) a h)"

definition extractCtx ::
  "'d Core \<Rightarrow> Field list \<Rightarrow> heap \<Rightarrow> (panic + Field list \<times> nat) \<times> heap" where
  "extractCtx c fs h = (case cloneCtx c h of (a, h1) \<Rightarrow> extractCtx_loop fs [] a h1)"

section \<open>Derivation and write\<close>

definition With ::
  "('d \<Rightarrow> Field list \<Rightarrow> 'd) \<Rightarrow> 'd Core \<Rightarrow> Field list \<Rightarrow> heap \<Rightarrow> (panic + 'd Core) \<times> heap" where
  "With dWith c fs h =
     (case extractCtx c fs h of
        (Inl r, h') \<Rightarrow> (Inl r, h')
      | (Inr (fs', a), h') \<Rightarrow>
          (Inr \<lparr>Core = dWith (Core c) fs',
                SetReportLocation = SetReportLocation c,
                ctx = Some a\<rparr>, h'))"

text \<open>
  \<open>appendFields\<close>: the string builder is the text written so far; \<open>fmt.Sprintf("%v", s)\<close> of a
  string is the string.
\<close>

fun appendFields_loop :: "extern \<Rightarrow> string \<Rightarrow> Field list \<Rightarrow> panic + string" where
  "appendFields_loop ext builder [] = Inr builder"
| "appendFields_loop ext builder (field # fs) =
     (if Key field = ''context'' then appendFields_loop ext builder fs
      else
        (case fieldValueToString ext field of
           Inl r \<Rightarrow> Inl r
         | Inr v \<Rightarrow> appendFields_loop ext (builder @ '' '' @ Key field @ ''='' @ v) fs))"

definition appendFields :: "extern \<Rightarrow> string \<Rightarrow> Field list \<Rightarrow> panic + string" where
  "appendFields ext str fs = appendFields_loop ext str fs"

record EntryCaller =
  Defined :: bool
  PC :: "64 word"
  File :: string
  Line :: int

text \<open>The entry; its time is represented as a \<open>time.Time\<close> payload is, by its text.\<close>

record Entry =
  Level :: Level
  Time :: string
  LoggerName :: string
  Message :: string
  Caller :: EntryCaller
  Stack :: string

definition getReportLocationFromEntry ::
  "extern \<Rightarrow> 'd Core \<Rightarrow> Entry \<Rightarrow> ReportLocation option" where
  "getReportLocationFromEntry ext c entry =
     (if \<not> SetReportLocation c then None
      else
        let caller = Caller entry in
        if \<not> Defined caller then None
        else
          Some \<lparr>FilePath = File caller,
                LineNumber = Line caller,
                FunctionName = (case FuncForPC ext (PC caller) of None \<Rightarrow> [] | Some n \<Rightarrow> n)\<rparr>)"

text \<open>
  \<open>Write\<close> returns what the downstream \<open>Write\<close> returns for the entry and the field list it is
  handed, unless a panic gets there first.
\<close>

definition Write ::
  "('d \<Rightarrow> Entry \<Rightarrow> Field list \<Rightarrow> 'r) \<Rightarrow> extern \<Rightarrow> 'd Core \<Rightarrow> Entry \<Rightarrow> Field list \<Rightarrow> heap
     \<Rightarrow> (panic + 'r) \<times> heap" where
  "Write dWrite ext c entry fs h =
     (let loc = getReportLocationFromEntry ext c entry;
          fs1 = (case loc of None \<Rightarrow> fs | Some l \<Rightarrow> fs @ [LogReportLocation (Some l)])
      in
        case extractCtx c fs1 h of
          (Inl r, h') \<Rightarrow> (Inl r, h')
        | (Inr (fs2, a), h') \<Rightarrow>
            (let fs3 = fs2 @ [zap_Object ''context'' (ContextPtr a)] in
               case appendFields ext (Message entry) fs3 of
                 Inl r \<Rightarrow> (Inl r, h')
               | Inr m \<Rightarrow> (Inr (dWrite (Core c) (entry\<lparr>Message := m\<rparr>) fs3), h')))"

section \<open>The partition and the message text as the specification words them\<close>

text \<open>
  The definitions of this section are not translations of code: they say in the words of
  the specification what the loops above are to compute, and the theorems compare the two.
\<close>

definition reserved :: "Field \<Rightarrow> bool" where
  "reserved f =
     (Key f = logKeyContextHTTPRequest \<or> Key f = logKeyContextReportLocation \<or>
      Key f = logKeyContextUser)"

text \<open>
  The payload of a field is of the dynamic type its reserved key stands for. A field with the
  user key always fits: \<open>extractCtx\<close> reads its \<open>String\<close> member, whatever its kind.
\<close>

definition payload_fits :: "Field \<Rightarrow> bool" where
  "payload_fits f =
     (if Key f = logKeyContextHTTPRequest then
        (case Interface f of HTTPRequestPtr p \<Rightarrow> True | _ \<Rightarrow> False)
      else if Key f = logKeyContextReportLocation then
        (case Interface f of ReportLocationPtr p \<Rightarrow> True | _ \<Rightarrow> False)
      else True)"

definition last_with_key :: "string \<Rightarrow> Field list \<Rightarrow> Field option" where
  "last_with_key k fs = List.find (\<lambda>f. Key f = k) (rev fs)"

definition base_Context :: "'d Core \<Rightarrow> heap \<Rightarrow> Context" where
  "base_Context c h =
     (case ctx c of
        None \<Rightarrow> \<lparr>User = [], HTTPRequest = None, ReportLocation = None\<rparr>
      | Some a \<Rightarrow> h ! a)"

text \<open>Last write wins: each slot is that of the last field with its key, or else the base's.\<close>

definition last_write_wins :: "Context \<Rightarrow> Field list \<Rightarrow> Context" where
  "last_write_wins base fs =
     \<lparr>User =
        (case last_with_key logKeyContextUser fs of
           None \<Rightarrow> User base
         | Some f \<Rightarrow> String f),
      HTTPRequest =
        (case last_with_key logKeyContextHTTPRequest fs of
           None \<Rightarrow> HTTPRequest base
         | Some f \<Rightarrow> (case Interface f of HTTPRequestPtr p \<Rightarrow> p | _ \<Rightarrow> None)),
      ReportLocation =
        (case last_with_key logKeyContextReportLocation fs of
           None \<Rightarrow> ReportLocation base
         | Some f \<Rightarrow> (case Interface f of ReportLocationPtr p \<Rightarrow> p | _ \<Rightarrow> None))\<rparr>"

definition rendering :: "extern \<Rightarrow> Field \<Rightarrow> string" where
  "rendering ext f = (case fieldValueToString ext f of Inl r \<Rightarrow> [] | Inr s \<Rightarrow> s)"

definition inline_text :: "extern \<Rightarrow> Field \<Rightarrow> string" where
  "inline_text ext f = '' '' @ Key f @ ''='' @ rendering ext f"

text \<open>
  Step 1 of the write: the caller's fields, followed by the captured report-location field
  when there is one.
\<close>

definition captured_fields :: "extern \<Rightarrow> 'd Core \<Rightarrow> Entry \<Rightarrow> Field list \<Rightarrow> Field list" where
  "captured_fields ext c entry fs =
     (case getReportLocationFromEntry ext c entry of
        None \<Rightarrow> fs
      | Some l \<Rightarrow> fs @ [LogReportLocation (Some l)])"

definition context_field :: "nat \<Rightarrow> Field" where
  "context_field a = zap_Object ''context'' (ContextPtr a)"

text \<open>A downstream \<open>Write\<close> that returns the call it received.\<close>

definition forwarded :: "'d \<Rightarrow> Entry \<Rightarrow> Field list \<Rightarrow> 'd \<times> Entry \<times> Field list" where
  "forwarded d entry fs = (d, entry, fs)"

section \<open>Example values\<close>

definition example_extern :: extern where
  "example_extern =
     \<lparr>FormatFloat64 = (\<lambda>b. ''0.00e+00''),
      FormatFloat32 = (\<lambda>b. ''0.00e+00''),
      UnixNanoString = (\<lambda>n. ''1970-01-01 00:00:00 +0000 UTC''),
      FuncForPC = (\<lambda>pc. Some ''main.run'')\<rparr>"

definition example_root :: "unit Core" where
  "example_root = \<lparr>Core = (), SetReportLocation = False, ctx = None\<rparr>"

definition example_locating :: "unit Core" where
  "example_locating = \<lparr>Core = (), SetReportLocation = True, ctx = None\<rparr>"

definition example_elsewhere :: ReportLocation where
  "example_elsewhere = \<lparr>FilePath = ''other.go'', LineNumber = 7, FunctionName = ''other.f''\<rparr>"

definition example_heap :: heap where
  "example_heap =
     [\<lparr>User = ''carol'', HTTPRequest = None, ReportLocation = Some example_elsewhere\<rparr>]"

definition example_child :: "unit Core" where
  "example_child = \<lparr>Core = (), SetReportLocation = True, ctx = Some 0\<rparr>"

definition example_entry :: Entry where
  "example_entry =
     \<lparr>Level = InfoLevel, Time = ''2020-01-01 00:00:00 +0000 UTC'', LoggerName = ''app'',
      Message = ''started'',
      Caller = \<lparr>Defined = True, PC = 4198400, File = ''main.go'', Line = 42\<rparr>,
      Stack = []\<rparr>"

section \<open>Lemmas on the serializer\<close>

lemma sdiv_million_bounds:
  fixes k :: int
  shows "- \<bar>k\<bar> \<le> k sdiv 1000000 \<and> k sdiv 1000000 \<le> \<bar>k\<bar>"
proof (cases "0 \<le> k")
  case True
  then have "k sdiv 1000000 = k div 1000000"
    by (cases "k = 0") (simp_all add: signed_divide_int_def)
  moreover have "0 \<le> k div 1000000" "k div 1000000 \<le> k"
    using True zdiv_mono2 [of k 1 1000000] by (simp_all add: pos_imp_zdiv_nonneg_iff)
  ultimately show ?thesis using True by simp
next
  case False
  then have "k sdiv 1000000 = - ((- k) div 1000000)"
    by (simp add: signed_divide_int_def)
  moreover have "0 \<le> (- k) div 1000000" "(- k) div 1000000 \<le> - k"
    using False zdiv_mono2 [of "- k" 1 1000000] by (simp_all add: pos_imp_zdiv_nonneg_iff)
  ultimately show ?thesis using False by simp
qed

lemma sint_int64_div_million: "sint (int64_div d 1000000) = sint d sdiv 1000000"
proof -
  have lo: "- (2 ^ 63) \<le> sint d" using sint_ge [of d] by simp
  have hi: "sint d < 2 ^ 63" using sint_lt [of d] by simp
  have b: "- \<bar>sint d\<bar> \<le> sint d sdiv 1000000 \<and> sint d sdiv 1000000 \<le> \<bar>sint d\<bar>"
    by (rule sdiv_million_bounds)
  have m: "sint d sdiv 1000000 \<noteq> 2 ^ 63"
  proof
    assume e: "sint d sdiv 1000000 = 2 ^ 63"
    then have "\<bar>sint d\<bar> = 2 ^ 63" using b lo hi by linarith
    then have "sint d = - (2 ^ 63)" using hi by linarith
    then have "sint d sdiv 1000000 = - 9223372036854" by (simp add: signed_divide_int_def)
    with e show False by simp
  qed
  have "- (2 ^ 63) \<le> sint d sdiv 1000000" "sint d sdiv 1000000 < 2 ^ 63"
    using b lo hi m by linarith+
  then have "signed_take_bit 63 (sint d sdiv 1000000) = sint d sdiv 1000000"
    by (simp add: signed_take_bit_int_eq_self)
  then show ?thesis
    by (simp add: int64_div_def sint_sbintrunc')
qed

lemma signed_take_bit_small:
  fixes x :: int
  assumes "0 \<le> x" and "x < 4294967296"
  shows "signed_take_bit (63::nat) x = x"
proof (rule signed_take_bit_int_eq_self)
  show "- (2 ^ 63) \<le> x" using assms by simp
  show "x < 2 ^ 63" using assms by simp
qed

lemma narrow_unsigned_rendering:
  "fieldValueToString ext (zap_Uint32 key v32) = Inr (decimal (unat v32))"
  "fieldValueToString ext (zap_Uint16 key v16) = Inr (decimal (unat v16))"
  "fieldValueToString ext (zap_Uint8 key v8) = Inr (decimal (unat v8))"
proof -
  have a: "sint (ucast v32 :: 64 word) = uint v32"
    using uint_lt2p [of v32] by (simp add: signed_ucast_eq signed_take_bit_small)
  have b: "sint (ucast v16 :: 64 word) = uint v16"
    using uint_lt2p [of v16] by (simp add: signed_ucast_eq signed_take_bit_small)
  have c: "sint (ucast v8 :: 64 word) = uint v8"
    using uint_lt2p [of v8] by (simp add: signed_ucast_eq signed_take_bit_small)
  show "fieldValueToString ext (zap_Uint32 key v32) = Inr (decimal (unat v32))"
    by (simp add: fieldValueToString_def fieldValueToString_switch_def zap_Uint32_def FormatInt_def a)
  show "fieldValueToString ext (zap_Uint16 key v16) = Inr (decimal (unat v16))"
    by (simp add: fieldValueToString_def fieldValueToString_switch_def zap_Uint16_def FormatInt_def b)
  show "fieldValueToString ext (zap_Uint8 key v8) = Inr (decimal (unat v8))"
    by (simp add: fieldValueToString_def fieldValueToString_switch_def zap_Uint8_def FormatInt_def c)
qed

section \<open>Lemmas on the partition and the message text\<close>

lemma keys_distinct:
  "logKeyContextHTTPRequest \<noteq> logKeyContextReportLocation"
  "logKeyContextHTTPRequest \<noteq> logKeyContextUser"
  "logKeyContextReportLocation \<noteq> logKeyContextUser"
  "logKeyServiceContext \<noteq> logKeyContextHTTPRequest"
  "logKeyServiceContext \<noteq> logKeyContextReportLocation"
  "logKeyServiceContext \<noteq> logKeyContextUser"
  by (simp_all add: logKeyContextHTTPRequest_def logKeyContextReportLocation_def
      logKeyContextUser_def logKeyServiceContext_def)

lemma fieldValueToString_returns: "\<exists>s. fieldValueToString ext field = Inr s"
  by (simp add: fieldValueToString_def split: sum.split)

lemma find_snoc:
  "List.find P (xs @ [x]) =
     (case List.find P xs of None \<Rightarrow> (if P x then Some x else None) | Some y \<Rightarrow> Some y)"
  by (induction xs) simp_all

lemma last_with_key_Nil: "last_with_key k [] = None"
  by (simp add: last_with_key_def)

lemma last_with_key_Cons:
  "last_with_key k (f # fs) =
     (case last_with_key k fs of None \<Rightarrow> (if Key f = k then Some f else None) | Some g \<Rightarrow> Some g)"
  by (simp add: last_with_key_def find_snoc)

lemma last_write_wins_Nil: "last_write_wins base [] = base"
  by (simp add: last_write_wins_def last_with_key_Nil)

lemma last_write_wins_User:
  "Key f = logKeyContextUser \<Longrightarrow>
   last_write_wins (base\<lparr>User := String f\<rparr>) fs = last_write_wins base (f # fs)"
  using keys_distinct
  by (simp add: last_write_wins_def last_with_key_Cons split: option.split)

lemma last_write_wins_HTTPRequest:
  "Key f = logKeyContextHTTPRequest \<Longrightarrow> Interface f = HTTPRequestPtr p \<Longrightarrow>
   last_write_wins (base\<lparr>HTTPRequest := p\<rparr>) fs = last_write_wins base (f # fs)"
  using keys_distinct
  by (simp add: last_write_wins_def last_with_key_Cons split: option.split)

lemma last_write_wins_ReportLocation:
  "Key f = logKeyContextReportLocation \<Longrightarrow> Interface f = ReportLocationPtr p \<Longrightarrow>
   last_write_wins (base\<lparr>ReportLocation := p\<rparr>) fs = last_write_wins base (f # fs)"
  using keys_distinct
  by (simp add: last_write_wins_def last_with_key_Cons split: option.split)

lemma last_write_wins_other:
  "\<not> reserved f \<Longrightarrow> last_write_wins base (f # fs) = last_write_wins base fs"
  by (simp add: last_write_wins_def last_with_key_Cons reserved_def split: option.split)

lemma extractCtx_loop_fits:
  "list_all payload_fits fs \<Longrightarrow> a < length h \<Longrightarrow>
   extractCtx_loop fs out a h =
     (Inr (out @ filter (\<lambda>f. \<not> reserved f) fs, a), h[a := last_write_wins (h ! a) fs])"
proof (induction fs arbitrary: out h)
  case Nil
  then show ?case by (simp add: last_write_wins_Nil)
next
  case (Cons f fs)
  from Cons.prems have fits: "payload_fits f" and rest: "list_all payload_fits fs" by simp_all
  consider (http) "Key f = logKeyContextHTTPRequest"
    | (loc) "Key f = logKeyContextReportLocation"
    | (user) "Key f = logKeyContextUser"
    | (other) "\<not> reserved f"
    by (auto simp: reserved_def)
  then show ?case
  proof cases
    case http
    with fits obtain p where p: "Interface f = HTTPRequestPtr p"
      by (auto simp: payload_fits_def split: Interface.splits)
    have r: "reserved f" using http by (simp add: reserved_def)
    show ?thesis
      using http p r Cons.prems(2) Cons.IH [OF rest, of "h[a := (h ! a)\<lparr>HTTPRequest := p\<rparr>]" out]
      by (simp add: last_write_wins_HTTPRequest)
  next
    case loc
    with fits keys_distinct obtain p where p: "Interface f = ReportLocationPtr p"
      by (auto simp: payload_fits_def split: Interface.splits if_splits)
    have r: "reserved f" using loc by (simp add: reserved_def)
    show ?thesis
      using loc p r keys_distinct Cons.prems(2)
        Cons.IH [OF rest, of "h[a := (h ! a)\<lparr>ReportLocation := p\<rparr>]" out]
      by (simp add: last_write_wins_ReportLocation)
  next
    case user
    have r: "reserved f" using user by (simp add: reserved_def)
    show ?thesis
      using user r keys_distinct Cons.prems(2)
        Cons.IH [OF rest, of "h[a := (h ! a)\<lparr>User := String f\<rparr>]" out]
      by (simp add: last_write_wins_User)
  next
    case other
    then have k: "Key f \<noteq> logKeyContextHTTPRequest" "Key f \<noteq> logKeyContextReportLocation"
      "Key f \<noteq> logKeyContextUser" by (simp_all add: reserved_def)
    show ?thesis
      using other k Cons.prems(2) Cons.IH [OF rest, of h "out @ [f]"]
      by (simp add: last_write_wins_other)
  qed
qed

lemma extractCtx_loop_returns_fits:
  "extractCtx_loop fs out a h = (Inr r, h') \<Longrightarrow> list_all payload_fits fs"
proof (induction fs arbitrary: out h)
  case Nil
  then show ?case by simp
next
  case (Cons f fs)
  have "payload_fits f \<and> (\<exists>out2 h2. extractCtx_loop fs out2 a h2 = (Inr r, h'))"
    using Cons.prems keys_distinct
    by (simp add: payload_fits_def split: if_splits Interface.splits) blast+
  then show ?case using Cons.IH by auto
qed

lemma extractCtx_loop_frame:
  "extractCtx_loop fs out a h = (r, h') \<Longrightarrow> length h' = length h \<and> take a h' = take a h"
proof (induction fs arbitrary: out h)
  case Nil
  then show ?case by simp
next
  case (Cons f fs)
  then show ?case
    by (fastforce split: if_splits Interface.splits)
qed

lemma appendFields_loop_text:
  "appendFields_loop ext b fs =
     Inr (b @ concat (map (inline_text ext) (filter (\<lambda>f. Key f \<noteq> ''context'') fs)))"
proof (induction fs arbitrary: b)
  case Nil
  then show ?case by simp
next
  case (Cons f fs)
  obtain s where s: "fieldValueToString ext f = Inr s"
    using fieldValueToString_returns by blast
  then show ?case
    using Cons.IH by (simp add: inline_text_def rendering_def)
qed

lemma cloneCtx_alloc: "cloneCtx c h = (length h, h @ [base_Context c h])"
  by (simp add: cloneCtx_def Context_Clone_def alloc_def base_Context_def split: option.split)

lemma extractCtx_fits:
  "list_all payload_fits fs \<Longrightarrow>
   extractCtx c fs h =
     (Inr (filter (\<lambda>f. \<not> reserved f) fs, length h),
      h @ [last_write_wins (base_Context c h) fs])"
  by (simp add: extractCtx_def cloneCtx_alloc extractCtx_loop_fits)

lemma extractCtx_returns_fits:
  "extractCtx c fs h = (Inr r, h') \<Longrightarrow> list_all payload_fits fs"
  by (auto simp: extractCtx_def cloneCtx_alloc dest: extractCtx_loop_returns_fits)

lemma extractCtx_frame:
  "extractCtx c fs h = (r, h') \<Longrightarrow> length h' = Suc (length h) \<and> take (length h) h' = h"
  by (auto simp: extractCtx_def cloneCtx_alloc dest: extractCtx_loop_frame)

lemma Write_unfold:
  "Write dWrite ext c entry fs h =
     (case extractCtx c (captured_fields ext c entry fs) h of
        (Inl r, h') \<Rightarrow> (Inl r, h')
      | (Inr (ordinary, a), h') \<Rightarrow>
          (Inr (dWrite (Core c)
             (entry\<lparr>Message := Message entry @
                concat (map (inline_text ext) (filter (\<lambda>f. Key f \<noteq> ''context'') ordinary))\<rparr>)
             (ordinary @ [context_field a])), h'))"
  by (simp add: Write_def captured_fields_def context_field_def appendFields_def
      appendFields_loop_text zap_Object_def Let_def
      split: option.split prod.split sum.split)

lemma Write_frame:
  "Write dWrite ext c entry fs h = (r, h') \<Longrightarrow> length h' = Suc (length h) \<and> take (length h) h' = h"
  by (auto simp: Write_unfold split: prod.splits sum.splits dest: extractCtx_frame)

lemma With_frame:
  "With dWith c fs h = (r, h') \<Longrightarrow> length h' = Suc (length h) \<and> take (length h) h' = h"
  by (auto simp: With_def split: prod.splits sum.splits dest: extractCtx_frame)

lemma Write_forwarded_returns:
  assumes "Write forwarded ext c entry fs h = (Inr (d, entry', fwd), h')"
  shows "list_all payload_fits (captured_fields ext c entry fs) \<and>
         d = Core c \<and>
         fwd = filter (\<lambda>f. \<not> reserved f) (captured_fields ext c entry fs) @ [context_field (length h)] \<and>
         h' = h @ [last_write_wins (base_Context c h) (captured_fields ext c entry fs)] \<and>
         Message entry' = Message entry @
           concat (map (inline_text ext)
             (filter (\<lambda>f. Key f \<noteq> ''context'')
               (filter (\<lambda>f. \<not> reserved f) (captured_fields ext c entry fs))))"
proof -
  obtain r h1 where e: "extractCtx c (captured_fields ext c entry fs) h = (r, h1)"
    by (cases "extractCtx c (captured_fields ext c entry fs) h")
  with assms obtain ordinary a where r: "r = Inr (ordinary, a)"
    by (cases r) (auto simp: Write_unfold)
  from e r have fits: "list_all payload_fits (captured_fields ext c entry fs)"
    using extractCtx_returns_fits by blast
  from extractCtx_fits [OF fits, of c h] e r
  have o: "ordinary = filter (\<lambda>f. \<not> reserved f) (captured_fields ext c entry fs)"
    and a: "a = length h"
    and h1: "h1 = h @ [last_write_wins (base_Context c h) (captured_fields ext c entry fs)]"
    by simp_all
  from assms e r show ?thesis
    using fits o a h1 by (auto simp: Write_unfold forwarded_def)
qed

lemma last_with_key_snoc: "Key f = k \<Longrightarrow> last_with_key k (fs @ [f]) = Some f"
  by (simp add: last_with_key_def)

lemma find_filter_implied:
  "(\<And>x. P x \<Longrightarrow> Q x) \<Longrightarrow> List.find P (filter Q xs) = List.find P xs"
  by (induction xs) auto

lemma last_with_key_filter:
  "k \<noteq> k' \<Longrightarrow> last_with_key k (filter (\<lambda>f. Key f \<noteq> k') fs) = last_with_key k fs"
proof -
  assume "k \<noteq> k'"
  then have "List.find (\<lambda>f. Key f = k) (filter (\<lambda>f. Key f \<noteq> k') (rev fs)) =
             List.find (\<lambda>f. Key f = k) (rev fs)"
    by (intro find_filter_implied) auto
  then show ?thesis by (simp add: last_with_key_def rev_filter)
qed

lemma last_write_wins_without_serviceContext:
  "last_write_wins base (filter (\<lambda>f. Key f \<noteq> logKeyServiceContext) fs) = last_write_wins base fs"
  using keys_distinct by (simp add: last_write_wins_def last_with_key_filter)

lemma list_all_filter: "list_all P xs \<Longrightarrow> list_all P (filter Q xs)"
  by (induction xs) auto

lemma serviceContext_not_reserved:
  "filter (\<lambda>f. Key f = logKeyServiceContext) (filter (\<lambda>f. \<not> reserved f) fs) =
   filter (\<lambda>f. Key f = logKeyServiceContext) fs"
proof -
  have "\<And>f. Key f = logKeyServiceContext \<Longrightarrow> \<not> reserved f"
    using keys_distinct by (simp add: reserved_def)
  then show ?thesis by (induction fs) auto
qed

lemma captured_fields_serviceContext:
  "filter (\<lambda>f. Key f = logKeyServiceContext) (captured_fields ext c entry fs) =
   filter (\<lambda>f. Key f = logKeyServiceContext) fs"
  using keys_distinct
  by (simp add: captured_fields_def LogReportLocation_def zap_Object_def split: option.split)


section \<open>The claims\<close>

text \<open>
  C2. The field serializer never hands a failure to its caller: for every field of every
  kind it returns a string, and whenever its switch panics (a stringer, error or time payload
  that is not what the kind declares, or a method that panics) the string is empty. Its
  caller \<open>appendFields\<close> therefore always returns a text.
\<close>

theorem fieldValueToString_never_panics:
  "(\<exists>s. fieldValueToString ext field = Inr s) \<and>
   (fieldValueToString_switch ext field = Inl r \<longrightarrow> fieldValueToString ext field = Inr []) \<and>
   (\<exists>m. appendFields ext str fs = Inr m)"
  by (simp add: fieldValueToString_def appendFields_def appendFields_loop_text split: sum.split)

theorem fieldValueToString_never_panics_witness:
  "fieldValueToString_switch example_extern (zap_Stringer ''who'' NilInterface) =
     Inl TypeAssertionFailed \<and>
   fieldValueToString example_extern (zap_Stringer ''who'' NilInterface) = Inr []"
  using fieldValueToString_never_panics
    [of example_extern "zap_Stringer ''who'' NilInterface" TypeAssertionFailed]
  by (simp add: fieldValueToString_switch_def zap_Stringer_def)

text \<open>
  C4. An unsigned 64-bit field is rendered through the signed formatter: the field built by
  \<open>zap.Uint64\<close> from \<open>2^64 - 1\<close> renders as \<open>-1\<close>, where the decimal text of the carried
  unsigned value is \<open>18446744073709551615\<close>.
\<close>

theorem Uint64_rendered_signed:
  "fieldValueToString ext (zap_Uint64 key 18446744073709551615) = Inr ''-1'' \<and>
   decimal (unat (18446744073709551615 :: 64 word)) = ''18446744073709551615''"
  by (simp add: fieldValueToString_def fieldValueToString_switch_def zap_Uint64_def
      FormatInt_def decimal.simps digit_char_def)

text \<open>
  C6. A boolean field renders as \<open>1\<close> for true and \<open>0\<close> for false. A duration field renders
  as the decimal text of its nanoseconds divided by 1000000, a division that truncates
  towards zero and does not wrap; a duration of 1500000 ns renders as \<open>1\<close>.
\<close>

theorem bool_and_duration_rendering:
  "fieldValueToString ext (zap_Bool key True) = Inr ''1'' \<and>
   fieldValueToString ext (zap_Bool key False) = Inr ''0'' \<and>
   fieldValueToString ext (zap_Duration key d) = Inr (FormatInt (int64_div d 1000000)) \<and>
   sint (int64_div d 1000000) = sgn (sint d) * (\<bar>sint d\<bar> div 1000000) \<and>
   fieldValueToString ext (zap_Duration key 1500000) = Inr ''1''"
proof -
  have t: "fieldValueToString ext (zap_Bool key True) = Inr ''1''"
    by (simp add: fieldValueToString_def fieldValueToString_switch_def zap_Bool_def
        FormatInt_def decimal.simps digit_char_def)
  have f: "fieldValueToString ext (zap_Bool key False) = Inr ''0''"
    by (simp add: fieldValueToString_def fieldValueToString_switch_def zap_Bool_def
        FormatInt_def decimal.simps digit_char_def)
  have g: "fieldValueToString ext (zap_Duration key d) = Inr (FormatInt (int64_div d 1000000))"
    by (simp add: fieldValueToString_def fieldValueToString_switch_def zap_Duration_def)
  have s: "sint (int64_div d 1000000) = sgn (sint d) * (\<bar>sint d\<bar> div 1000000)"
    by (simp add: sint_int64_div_million signed_divide_int_def)
  have e: "fieldValueToString ext (zap_Duration key 1500000) = Inr ''1''"
    by (simp add: fieldValueToString_def fieldValueToString_switch_def zap_Duration_def
        FormatInt_def int64_div_def decimal.simps digit_char_def signed_divide_int_def)
  from t f g s e show ?thesis by simp
qed

text \<open>
  C7. The severity table maps each of the seven levels to one token, debug to DEBUG, info to
  INFO, warn to WARNING, error to ERROR, dpanic to CRITICAL, panic to ALERT and fatal to
  EMERGENCY, and \<open>EncodeLevel\<close> appends that token; the table has exactly these seven keys,
  each once.
\<close>

theorem EncodeLevel_severity:
  "EncodeLevel DebugLevel enc = enc @ [''DEBUG''] \<and>
   EncodeLevel InfoLevel enc = enc @ [''INFO''] \<and>
   EncodeLevel WarnLevel enc = enc @ [''WARNING''] \<and>
   EncodeLevel ErrorLevel enc = enc @ [''ERROR''] \<and>
   EncodeLevel DPanicLevel enc = enc @ [''CRITICAL''] \<and>
   EncodeLevel PanicLevel enc = enc @ [''ALERT''] \<and>
   EncodeLevel FatalLevel enc = enc @ [''EMERGENCY''] \<and>
   map fst logLevelSeverity =
     [DebugLevel, InfoLevel, WarnLevel, ErrorLevel, DPanicLevel, PanicLevel, FatalLevel] \<and>
   distinct (map fst logLevelSeverity)"
  by (simp add: EncodeLevel_def logLevelSeverity_def DebugLevel_def InfoLevel_def WarnLevel_def
      ErrorLevel_def DPanicLevel_def PanicLevel_def FatalLevel_def)

text \<open>
  C1, as amended. For every field list in which each field with the key
  \<open>context.httpRequest\<close> carries a \<open>*HTTPRequest\<close> and each field with the key
  \<open>context.reportLocation\<close> carries a \<open>*ReportLocation\<close>, and for every node and store, the
  partition returns the fields whose key is not reserved, unchanged and in their order, and
  a newly allocated context whose slots are those of the node's base context overwritten by
  the last field of each reserved key; the contexts already in the store stay as they were.
\<close>

theorem extractCtx_partition:
  assumes "list_all payload_fits fs"
  shows "extractCtx c fs h =
           (Inr (filter (\<lambda>f. \<not> reserved f) fs, length h),
            h @ [last_write_wins (base_Context c h) fs])"
  using assms by (rule extractCtx_fits)

theorem extractCtx_partition_witness:
  "list_all payload_fits
     [LogUser ''alice'', zap_Int32 ''retries'' 3, LogHTTPRequest (Some 7), LogUser ''bob''] \<and>
   extractCtx example_root
     [LogUser ''alice'', zap_Int32 ''retries'' 3, LogHTTPRequest (Some 7), LogUser ''bob''] [] =
     (Inr ([zap_Int32 ''retries'' 3], 0),
      [\<lparr>User = ''bob'', HTTPRequest = Some 7, ReportLocation = None\<rparr>])"
proof -
  have fits: "list_all payload_fits
     [LogUser ''alice'', zap_Int32 ''retries'' 3, LogHTTPRequest (Some 7), LogUser ''bob'']"
    by (simp add: payload_fits_def LogUser_def LogHTTPRequest_def zap_String_def zap_Int32_def
        zap_Object_def logKeyContextUser_def logKeyContextHTTPRequest_def
        logKeyContextReportLocation_def)
  show ?thesis
    using fits extractCtx_partition [OF fits, of example_root "[]"]
    by (simp add: reserved_def last_write_wins_def last_with_key_def base_Context_def
        example_root_def LogUser_def LogHTTPRequest_def zap_String_def zap_Int32_def
        zap_Object_def logKeyContextUser_def logKeyContextHTTPRequest_def
        logKeyContextReportLocation_def)
qed

text \<open>
  C1 as stated, for every field list, fails: on a field with the key \<open>context.httpRequest\<close>
  built by \<open>zap.String\<close> the type assertion panics and the partition returns no output.
\<close>

theorem extractCtx_panics_on_misfit:
  "fst (extractCtx example_root [zap_String ''context.httpRequest'' ''GET /''] []) =
     Inl TypeAssertionFailed"
  by (simp add: extractCtx_def cloneCtx_def alloc_def example_root_def zap_String_def
      logKeyContextHTTPRequest_def)

text \<open>
  C3, as amended. When a write reaches the downstream core, the message it forwards is the
  entry's message followed by \<open>" key=value"\<close> for every ordinary field whose key is not
  \<open>context\<close>, in field order, where the ordinary fields are the partition's output for the
  caller's fields with the captured location; the forwarded list is those ordinary fields
  followed by the context object.
\<close>

theorem Write_message_text:
  assumes "Write forwarded ext c entry fs h = (Inr (d, entry', fwd), h')"
  shows "fst (extractCtx c (captured_fields ext c entry fs) h) = Inr (butlast fwd, length h) \<and>
         fwd = butlast fwd @ [context_field (length h)] \<and>
         Message entry' = Message entry @
           concat (map (inline_text ext) (filter (\<lambda>f. Key f \<noteq> ''context'') (butlast fwd)))"
proof -
  from Write_forwarded_returns [OF assms]
  have fits: "list_all payload_fits (captured_fields ext c entry fs)"
    and fwd: "fwd = filter (\<lambda>f. \<not> reserved f) (captured_fields ext c entry fs) @
                [context_field (length h)]"
    and msg: "Message entry' = Message entry @
           concat (map (inline_text ext)
             (filter (\<lambda>f. Key f \<noteq> ''context'')
               (filter (\<lambda>f. \<not> reserved f) (captured_fields ext c entry fs))))"
    by simp_all
  from fwd have b: "butlast fwd = filter (\<lambda>f. \<not> reserved f) (captured_fields ext c entry fs)"
    by simp
  show ?thesis
    using extractCtx_fits [OF fits, of c h] fwd msg b by simp
qed

theorem Write_message_text_witness:
  "Write forwarded example_extern example_root example_entry
     [LogUser ''alice'', zap_Int32 ''retries'' 3, zap_String ''context'' ''x''] [] =
     (Inr ((), example_entry\<lparr>Message := ''started retries=3''\<rparr>,
           [zap_Int32 ''retries'' 3, zap_String ''context'' ''x'', context_field 0]),
      [\<lparr>User = ''alice'', HTTPRequest = None, ReportLocation = None\<rparr>]) \<and>
   Message (example_entry\<lparr>Message := ''started retries=3''\<rparr>) =
     Message example_entry @
       concat (map (inline_text example_extern)
         (filter (\<lambda>f. Key f \<noteq> ''context'')
           (butlast [zap_Int32 ''retries'' 3, zap_String ''context'' ''x'', context_field 0])))"
proof -
  have w: "Write forwarded example_extern example_root example_entry
     [LogUser ''alice'', zap_Int32 ''retries'' 3, zap_String ''context'' ''x''] [] =
     (Inr ((), example_entry\<lparr>Message := ''started retries=3''\<rparr>,
           [zap_Int32 ''retries'' 3, zap_String ''context'' ''x'', context_field 0]),
      [\<lparr>User = ''alice'', HTTPRequest = None, ReportLocation = None\<rparr>])"
    by (simp add: Write_def getReportLocationFromEntry_def example_root_def example_entry_def
      extractCtx_def cloneCtx_def alloc_def zap_String_def zap_Object_def zap_Int32_def
      forwarded_def LogUser_def context_field_def
      appendFields_def logKeyContextHTTPRequest_def logKeyContextReportLocation_def
      logKeyContextUser_def fieldValueToString_def fieldValueToString_switch_def FormatInt_def
      decimal.simps digit_char_def)
  show ?thesis
    using w Write_message_text [OF w] by simp
qed

text \<open>
  C3 as stated, with no ordinary field skipped, fails: an ordinary field whose key is
  \<open>context\<close> is in the partition's output and is forwarded, and nothing is appended to the
  message for it.
\<close>

theorem Write_skips_context_key:
  "fst (extractCtx example_root [zap_String ''context'' ''x''] []) =
     Inr ([zap_String ''context'' ''x''], 0) \<and>
   fst (Write forwarded example_extern example_root example_entry
          [zap_String ''context'' ''x''] []) =
     Inr ((), example_entry, [zap_String ''context'' ''x'', context_field 0]) \<and>
   Message example_entry \<noteq>
     Message example_entry @ inline_text example_extern (zap_String ''context'' ''x'')"
  by (simp add: Write_def getReportLocationFromEntry_def example_root_def example_entry_def
      extractCtx_def cloneCtx_def alloc_def zap_String_def zap_Object_def forwarded_def
      context_field_def inline_text_def
      appendFields_def logKeyContextHTTPRequest_def logKeyContextReportLocation_def
      logKeyContextUser_def)

text \<open>
  C5. Deriving a child leaves every context of the store as it was, the receiver's and those
  of all nodes derived before: the store after \<open>With\<close> is the store before with one new
  context, the child's, at a new address. The same holds when the derivation panics, for
  every write through the receiver, and for every derivation and write through the child.
\<close>

theorem With_leaves_contexts:
  assumes "With dWith c fs h = (Inr c', h')"
  shows "take (length h) h' = h \<and>
         length h' = Suc (length h) \<and>
         ctx c' = Some (length h) \<and>
         SetReportLocation c' = SetReportLocation c \<and>
         take (length h) (snd (With dWith c fs2 h)) = h \<and>
         take (length h) (snd (Write dWrite ext c entry fs3 h)) = h \<and>
         take (length h') (snd (With dWith c' fs2 h')) = h' \<and>
         take (length h') (snd (Write dWrite ext c' entry fs3 h')) = h'"
proof -
  have a: "take (length h) h' = h \<and> length h' = Suc (length h)"
    using With_frame [OF assms] by simp
  obtain ordinary where e: "extractCtx c fs h = (Inr (ordinary, length h), h')"
    and c': "c' = \<lparr>Core = dWith (Core c) ordinary, SetReportLocation = SetReportLocation c,
                   ctx = Some (length h)\<rparr>"
  proof -
    obtain r h1 where x: "extractCtx c fs h = (r, h1)" by (cases "extractCtx c fs h")
    with assms obtain ordinary a where r: "r = Inr (ordinary, a)"
      by (cases r) (auto simp: With_def)
    from x r have "list_all payload_fits fs" using extractCtx_returns_fits by blast
    from extractCtx_fits [OF this, of c h] x r have "a = length h" by simp
    with x r assms that show ?thesis by (auto simp: With_def)
  qed
  have f: "\<And>(k :: 'a Core) g x. take (length x) (snd (With dWith k g x)) = x"
    using With_frame by (metis prod.collapse)
  have g: "\<And>(k :: 'a Core) g x. take (length x) (snd (Write dWrite ext k entry g x)) = x"
    using Write_frame by (metis prod.collapse)
  have c1: "ctx c' = Some (length h)" and c2: "SetReportLocation c' = SetReportLocation c"
    using c' by simp_all
  from a c1 c2 f [of h c fs2] g [of h c fs3] f [of h' c' fs2] g [of h' c' fs3]
  show ?thesis by blast
qed

theorem With_leaves_contexts_witness:
  "With (\<lambda>d g. d) example_child [LogUser ''dave''] example_heap =
     (Inr \<lparr>Core = (), SetReportLocation = True, ctx = Some 1\<rparr>,
      example_heap @
        [\<lparr>User = ''dave'', HTTPRequest = None, ReportLocation = Some example_elsewhere\<rparr>]) \<and>
   take (length example_heap)
     (example_heap @
        [\<lparr>User = ''dave'', HTTPRequest = None, ReportLocation = Some example_elsewhere\<rparr>]) =
     example_heap \<and>
   ctx \<lparr>Core = (), SetReportLocation = True, ctx = Some 1\<rparr> = Some (length example_heap)"
proof -
  have w: "With (\<lambda>d g. d) example_child [LogUser ''dave''] example_heap =
     (Inr \<lparr>Core = (), SetReportLocation = True, ctx = Some 1\<rparr>,
      example_heap @
        [\<lparr>User = ''dave'', HTTPRequest = None, ReportLocation = Some example_elsewhere\<rparr>])"
    by (simp add: With_def extractCtx_def cloneCtx_def Context_Clone_def alloc_def
        example_child_def example_heap_def LogUser_def zap_String_def
        logKeyContextHTTPRequest_def logKeyContextReportLocation_def logKeyContextUser_def)
  show ?thesis
    using w With_leaves_contexts [OF w] by (simp add: example_heap_def)
qed

text \<open>
  C8. When the location-capture flag is false, or the entry's caller is not defined, no
  report location is captured, the fields handed to the partition are the caller's fields,
  and the write is the partition, the message text and the forwarding of the caller's fields
  alone.
\<close>

theorem no_location_injected:
  assumes "\<not> SetReportLocation c \<or> \<not> Defined (Caller entry)"
  shows "getReportLocationFromEntry ext c entry = None \<and>
         captured_fields ext c entry fs = fs \<and>
         Write dWrite ext c entry fs h =
           (case extractCtx c fs h of
              (Inl r, h') \<Rightarrow> (Inl r, h')
            | (Inr (ordinary, a), h') \<Rightarrow>
                (Inr (dWrite (Core c)
                   (entry\<lparr>Message := Message entry @
                      concat (map (inline_text ext)
                        (filter (\<lambda>f. Key f \<noteq> ''context'') ordinary))\<rparr>)
                   (ordinary @ [context_field a])), h'))"
proof -
  have n: "getReportLocationFromEntry ext c entry = None"
    using assms by (auto simp: getReportLocationFromEntry_def Let_def)
  then have k: "captured_fields ext c entry fs = fs"
    by (simp add: captured_fields_def)
  show ?thesis
    using n k Write_unfold [of dWrite ext c entry fs h] by simp
qed

theorem no_location_injected_witness:
  "SetReportLocation example_root = False \<and> Defined (Caller example_entry) = True \<and>
   getReportLocationFromEntry example_extern example_root example_entry = None \<and>
   captured_fields example_extern example_root example_entry [LogUser ''alice''] =
     [LogUser ''alice'']"
proof -
  have d: "\<not> SetReportLocation example_root \<or> \<not> Defined (Caller example_entry)"
    by (simp add: example_root_def)
  show ?thesis
    using no_location_injected
      [OF d, where ext = example_extern and fs = "[LogUser ''alice'']" and dWrite = forwarded
        and h = "[]"]
    by (simp add: example_root_def example_entry_def)
qed

text \<open>
  C9. When location capture is enabled and the entry's caller is defined, every write that
  reaches the downstream core forwards, as its last field, the context object whose
  \<open>reportLocation\<close> slot is the location captured from the entry, whatever report location
  the caller's fields or the node's base context carry.
\<close>

theorem captured_location_wins:
  assumes "SetReportLocation c"
    and "Defined (Caller entry)"
    and "Write forwarded ext c entry fs h = (Inr (d, entry', fwd), h')"
  shows "getReportLocationFromEntry ext c entry =
           Some \<lparr>FilePath = File (Caller entry), LineNumber = Line (Caller entry),
                 FunctionName =
                   (case FuncForPC ext (PC (Caller entry)) of None \<Rightarrow> [] | Some n \<Rightarrow> n)\<rparr> \<and>
         last fwd = context_field (length h) \<and>
         length h' = Suc (length h) \<and>
         ReportLocation (h' ! length h) = getReportLocationFromEntry ext c entry"
proof -
  let ?loc = "\<lparr>FilePath = File (Caller entry), LineNumber = Line (Caller entry),
                 FunctionName =
                   (case FuncForPC ext (PC (Caller entry)) of None \<Rightarrow> [] | Some n \<Rightarrow> n)\<rparr>"
  have g: "getReportLocationFromEntry ext c entry = Some ?loc"
    using assms(1,2) by (simp add: getReportLocationFromEntry_def Let_def)
  then have k: "captured_fields ext c entry fs = fs @ [LogReportLocation (Some ?loc)]"
    by (simp add: captured_fields_def)
  have key: "Key (LogReportLocation (Some ?loc)) = logKeyContextReportLocation"
    by (simp add: LogReportLocation_def zap_Object_def)
  have slot: "ReportLocation (last_write_wins base (fs @ [LogReportLocation (Some ?loc)])) = Some ?loc"
    for base
    using last_with_key_snoc [OF key, of fs]
    by (simp add: last_write_wins_def) (simp add: LogReportLocation_def zap_Object_def)
  from Write_forwarded_returns [OF assms(3)]
  have fwd: "fwd = filter (\<lambda>f. \<not> reserved f) (captured_fields ext c entry fs) @
                [context_field (length h)]"
    and h': "h' = h @ [last_write_wins (base_Context c h) (captured_fields ext c entry fs)]"
    by simp_all
  show ?thesis
    using g fwd h' k slot by simp
qed

theorem captured_location_wins_witness:
  "SetReportLocation example_child \<and> Defined (Caller example_entry) \<and>
   Write forwarded example_extern example_child example_entry
     [LogReportLocation (Some example_elsewhere)] example_heap =
     (Inr ((), example_entry, [context_field 1]),
      example_heap @
        [\<lparr>User = ''carol'', HTTPRequest = None,
          ReportLocation =
            Some \<lparr>FilePath = ''main.go'', LineNumber = 42, FunctionName = ''main.run''\<rparr>\<rparr>]) \<and>
   ReportLocation
     ((example_heap @
        [\<lparr>User = ''carol'', HTTPRequest = None,
          ReportLocation =
            Some \<lparr>FilePath = ''main.go'', LineNumber = 42, FunctionName = ''main.run''\<rparr>\<rparr>])
      ! length example_heap) =
     getReportLocationFromEntry example_extern example_child example_entry"
proof -
  have s: "SetReportLocation example_child" by (simp add: example_child_def)
  have d: "Defined (Caller example_entry)" by (simp add: example_entry_def)
  have w: "Write forwarded example_extern example_child example_entry
     [LogReportLocation (Some example_elsewhere)] example_heap =
     (Inr ((), example_entry, [context_field 1]),
      example_heap @
        [\<lparr>User = ''carol'', HTTPRequest = None,
          ReportLocation =
            Some \<lparr>FilePath = ''main.go'', LineNumber = 42, FunctionName = ''main.run''\<rparr>\<rparr>])"
    by (simp add: Write_def getReportLocationFromEntry_def example_child_def example_entry_def
      example_heap_def example_extern_def
      extractCtx_def cloneCtx_def Context_Clone_def alloc_def zap_Object_def
      forwarded_def LogReportLocation_def context_field_def
      appendFields_def logKeyContextHTTPRequest_def logKeyContextReportLocation_def
      logKeyContextUser_def)
  show ?thesis
    using s d w captured_location_wins [OF s d w] by simp
qed

text \<open>
  C10. Whenever the partition returns, the fields with the key \<open>serviceContext\<close> are in its
  ordinary output, all of them and in their order, and the context it builds is the one it
  builds without them; a write that reaches the downstream core forwards them; and the
  field built by \<open>LogServiceContext\<close> renders as the empty string, so that the message gets
  \<open>" serviceContext="\<close> for it.
\<close>

theorem serviceContext_passes_through:
  assumes "extractCtx c fs h = (Inr (ordinary, a), h')"
  shows "filter (\<lambda>f. Key f = logKeyServiceContext) ordinary =
           filter (\<lambda>f. Key f = logKeyServiceContext) fs \<and>
         snd (extractCtx c (filter (\<lambda>f. Key f \<noteq> logKeyServiceContext) fs) h) = h' \<and>
         fieldValueToString ext (LogServiceContext sc) = Inr [] \<and>
         inline_text ext (LogServiceContext sc) = '' serviceContext='' \<and>
         (\<forall>d entry' fwd h2.
            Write forwarded ext c entry fs h = (Inr (d, entry', fwd), h2) \<longrightarrow>
            filter (\<lambda>f. Key f = logKeyServiceContext) fwd =
              filter (\<lambda>f. Key f = logKeyServiceContext) fs)"
proof -
  have fits: "list_all payload_fits fs"
    using assms extractCtx_returns_fits by blast
  from extractCtx_fits [OF fits, of c h] assms
  have o: "ordinary = filter (\<lambda>f. \<not> reserved f) fs"
    and h': "h' = h @ [last_write_wins (base_Context c h) fs]"
    by simp_all
  have p1: "filter (\<lambda>f. Key f = logKeyServiceContext) ordinary =
           filter (\<lambda>f. Key f = logKeyServiceContext) fs"
    using o by (simp only: serviceContext_not_reserved)
  have p2: "snd (extractCtx c (filter (\<lambda>f. Key f \<noteq> logKeyServiceContext) fs) h) = h'"
    using extractCtx_fits [OF list_all_filter [OF fits], of c "\<lambda>f. Key f \<noteq> logKeyServiceContext" h] h'
    by (simp add: last_write_wins_without_serviceContext)
  have p3: "fieldValueToString ext (LogServiceContext sc) = Inr []"
    by (simp add: fieldValueToString_def fieldValueToString_switch_def LogServiceContext_def
        zap_Object_def)
  have p4: "inline_text ext (LogServiceContext sc) = '' serviceContext=''"
    using p3 by (simp add: inline_text_def rendering_def LogServiceContext_def zap_Object_def
        logKeyServiceContext_def)
  have p5: "filter (\<lambda>f. Key f = logKeyServiceContext) fwd =
              filter (\<lambda>f. Key f = logKeyServiceContext) fs"
    if w: "Write forwarded ext c entry fs h = (Inr (d, entry', fwd), h2)" for d entry' fwd h2
  proof -
    from Write_forwarded_returns [OF w]
    have "fwd = filter (\<lambda>f. \<not> reserved f) (captured_fields ext c entry fs) @
                [context_field (length h)]"
      by simp
    moreover have "Key (context_field (length h)) \<noteq> logKeyServiceContext"
      by (simp add: context_field_def zap_Object_def logKeyServiceContext_def)
    ultimately show ?thesis
      by (simp add: serviceContext_not_reserved captured_fields_serviceContext
          del: filter_filter)
  qed
  from p1 p2 p3 p4 p5 show ?thesis by blast
qed

theorem serviceContext_passes_through_witness:
  "extractCtx example_root [LogServiceContext (Some 3), LogUser ''alice''] [] =
     (Inr ([LogServiceContext (Some 3)], 0),
      [\<lparr>User = ''alice'', HTTPRequest = None, ReportLocation = None\<rparr>]) \<and>
   Write forwarded example_extern example_root example_entry
     [LogServiceContext (Some 3), LogUser ''alice''] [] =
     (Inr ((), example_entry\<lparr>Message := ''started serviceContext=''\<rparr>,
           [LogServiceContext (Some 3), context_field 0]),
      [\<lparr>User = ''alice'', HTTPRequest = None, ReportLocation = None\<rparr>]) \<and>
   filter (\<lambda>f. Key f = logKeyServiceContext) [LogServiceContext (Some 3), context_field 0] =
     filter (\<lambda>f. Key f = logKeyServiceContext) [LogServiceContext (Some 3), LogUser ''alice''] \<and>
   snd (extractCtx example_root
          (filter (\<lambda>f. Key f \<noteq> logKeyServiceContext)
             [LogServiceContext (Some 3), LogUser ''alice'']) []) =
     [\<lparr>User = ''alice'', HTTPRequest = None, ReportLocation = None\<rparr>]"
proof -
  have e: "extractCtx example_root [LogServiceContext (Some 3), LogUser ''alice''] [] =
     (Inr ([LogServiceContext (Some 3)], 0),
      [\<lparr>User = ''alice'', HTTPRequest = None, ReportLocation = None\<rparr>])"
    by (simp add: extractCtx_def cloneCtx_def alloc_def example_root_def LogServiceContext_def
        LogUser_def zap_Object_def zap_String_def logKeyServiceContext_def
        logKeyContextHTTPRequest_def logKeyContextReportLocation_def logKeyContextUser_def)
  have w: "Write forwarded example_extern example_root example_entry
     [LogServiceContext (Some 3), LogUser ''alice''] [] =
     (Inr ((), example_entry\<lparr>Message := ''started serviceContext=''\<rparr>,
           [LogServiceContext (Some 3), context_field 0]),
      [\<lparr>User = ''alice'', HTTPRequest = None, ReportLocation = None\<rparr>])"
    by (simp add: Write_def getReportLocationFromEntry_def example_root_def example_entry_def
      extractCtx_def cloneCtx_def alloc_def zap_String_def zap_Object_def
      forwarded_def LogUser_def LogServiceContext_def context_field_def logKeyServiceContext_def
      appendFields_def logKeyContextHTTPRequest_def logKeyContextReportLocation_def
      logKeyContextUser_def fieldValueToString_def fieldValueToString_switch_def)
  from serviceContext_passes_through [OF e, of example_extern "Some 3" example_entry] w
  have "filter (\<lambda>f. Key f = logKeyServiceContext) [LogServiceContext (Some 3), context_field 0] =
     filter (\<lambda>f. Key f = logKeyServiceContext) [LogServiceContext (Some 3), LogUser ''alice'']"
    and "snd (extractCtx example_root
          (filter (\<lambda>f. Key f \<noteq> logKeyServiceContext)
             [LogServiceContext (Some 3), LogUser ''alice'']) []) =
     [\<lparr>User = ''alice'', HTTPRequest = None, ReportLocation = None\<rparr>]"
    by blast+
  with e w show ?thesis by blast
qed

end
